theory Spec2Isabelle
  imports Main
begin

section \<open>Python string primitives used by the controller\<close>

text \<open>
  The text handled by \<^verbatim>\<open>discord_audio_controller.py\<close> is modelled as \<open>string\<close>, a list of
  characters with code points below 256.  The functions below are the \<^verbatim>\<open>str\<close> and \<^verbatim>\<open>re\<close>
  operations the source calls, restricted to that range.
\<close>

definition isspace :: "char \<Rightarrow> bool" where
  \<comment> \<open>the characters \<^verbatim>\<open>str.strip()\<close> removes: tab to carriage return, the four separators
      0x1C to 0x1F, space, NEL and the no-break space\<close>
  "isspace c = (c \<in> set [CHR 0x09, CHR 0x0A, CHR 0x0B, CHR 0x0C, CHR 0x0D,
                           CHR 0x1C, CHR 0x1D, CHR 0x1E, CHR 0x1F, CHR 0x20, CHR 0x85, CHR 0xA0])"

definition isdigit :: "char \<Rightarrow> bool" where
  \<comment> \<open>what \<^verbatim>\<open>\d\<close> matches below code point 256\<close>
  "isdigit c = (c \<in> set ''0123456789'')"

definition lower_char :: "char \<Rightarrow> char" where
  \<comment> \<open>\<^verbatim>\<open>str.lower()\<close> on one character: the capitals \<^verbatim>\<open>A\<close> to \<^verbatim>\<open>Z\<close> and
      0xC0 to 0xDE (without the multiplication sign 0xD7) move up by 32, that is, get bit 5 set\<close>
  "lower_char c =
     (let n = (of_char c :: nat) in
      if (65 \<le> n \<and> n \<le> 90) \<or> (192 \<le> n \<and> n \<le> 222 \<and> n \<noteq> 215)
      then Char (digit0 c) (digit1 c) (digit2 c) (digit3 c) (digit4 c) True (digit6 c) (digit7 c)
      else c)"

definition lower :: "string \<Rightarrow> string" where
  "lower s = map lower_char s"

definition strip :: "string \<Rightarrow> string" where
  "strip s = rev (dropWhile isspace (rev (dropWhile isspace s)))"

fun startswith :: "string \<Rightarrow> string \<Rightarrow> bool" where
  \<comment> \<open>\<^verbatim>\<open>s.startswith(p)\<close>, written \<open>startswith p s\<close>\<close>
  "startswith [] s = True"
| "startswith (p # ps) [] = False"
| "startswith (p # ps) (c # cs) = (p = c \<and> startswith ps cs)"

fun contains :: "string \<Rightarrow> string \<Rightarrow> bool" where
  \<comment> \<open>\<^verbatim>\<open>p in s\<close>, written \<open>contains p s\<close>\<close>
  "contains p [] = (p = [])"
| "contains p (c # cs) = (startswith p (c # cs) \<or> contains p cs)"

fun split_nl :: "string \<Rightarrow> string list" where
  \<comment> \<open>\<^verbatim>\<open>s.split('\n')\<close>: never empty, one more piece than there are newlines\<close>
  "split_nl [] = [[]]"
| "split_nl (c # cs) =
     (let r = split_nl cs in if c = CHR 0x0A then [] # r else (c # hd r) # tl r)"

fun re_search :: "(string \<Rightarrow> 'a option) \<Rightarrow> string \<Rightarrow> 'a option" where
  \<comment> \<open>\<^verbatim>\<open>re.search\<close>: the leftmost position at which the anchored matcher succeeds\<close>
  "re_search m [] = m []"
| "re_search m (c # cs) = (case m (c # cs) of Some g \<Rightarrow> Some g | None \<Rightarrow> re_search m cs)"

definition match_id :: "string \<Rightarrow> string option" where
  \<comment> \<open>\<^verbatim>\<open>#(\d+)\<close> anchored: group 1 is the longest run of digits after the hash\<close>
  "match_id s =
     (case s of
        [] \<Rightarrow> None
      | c # rest \<Rightarrow>
          if c = CHR ''#'' \<and> takeWhile isdigit rest \<noteq> [] then Some (takeWhile isdigit rest)
          else None)"

definition match_app_name :: "string \<Rightarrow> string option" where
  \<comment> \<open>\<^verbatim>\<open>application\.name = "([^"]*)"\<close> anchored: group 1 runs to the next double quote,
      which has to be there\<close>
  "match_app_name s =
     (if startswith ''application.name = \"'' s
      then (let rest = drop (length ''application.name = \"'') s;
                v = takeWhile (\<lambda>c. c \<noteq> CHR 0x22) rest
            in if startswith [CHR 0x22] (drop (length v) rest) then Some v else None)
      else None)"

definition match_volume :: "string \<Rightarrow> string option" where
  \<comment> \<open>\<^verbatim>\<open>(\d+)%\<close> anchored: a run of digits that ends at a percent sign\<close>
  "match_volume s =
     (if takeWhile isdigit s \<noteq> [] \<and> startswith ''%'' (dropWhile isdigit s)
      then Some (takeWhile isdigit s) else None)"

definition digit_val :: "char \<Rightarrow> int" where
  "digit_val c = int (of_char c) - 48"

definition int_of_str :: "string \<Rightarrow> int" where
  \<comment> \<open>\<^verbatim>\<open>int(s)\<close> on a non-empty string of decimal digits (the only argument the source
      passes); the interpreter's cap on the number of digits is not modelled\<close>
  "int_of_str s = foldl (\<lambda>a c. 10 * a + digit_val c) 0 s"

fun str_of_nat :: "nat \<Rightarrow> string" where
  \<comment> \<open>the decimal text an f-string puts in for a non-negative integer\<close>
  "str_of_nat n =
     (if n < 10 then [''0123456789'' ! n]
      else str_of_nat (n div 10) @ [''0123456789'' ! (n mod 10)])"

section \<open>Stream records\<close>

text \<open>
  A stream is a Python dict with keys among \<^verbatim>\<open>"id"\<close>, \<^verbatim>\<open>"type"\<close>, \<^verbatim>\<open>"app_name"\<close>,
  \<^verbatim>\<open>"muted"\<close> and \<^verbatim>\<open>"volume"\<close>.  A field is \<open>None\<close> when the key is absent; the empty
  dict \<^verbatim>\<open>{}\<close> is \<open>empty_stream\<close>.
\<close>

record stream =
  id_key :: "string option"
  type_key :: "string option"
  app_name :: "string option"
  muted :: "bool option"
  volume :: "int option"

definition empty_stream :: stream where
  "empty_stream = \<lparr>id_key = None, type_key = None, app_name = None, muted = None, volume = None\<rparr>"

definition truthy :: "stream \<Rightarrow> bool" where
  \<comment> \<open>\<^verbatim>\<open>if current_sink:\<close> holds when the dict has at least one key\<close>
  "truthy s = (id_key s \<noteq> None \<or> type_key s \<noteq> None \<or> app_name s \<noteq> None
               \<or> muted s \<noteq> None \<or> volume s \<noteq> None)"

definition new_stream :: "string \<Rightarrow> string \<Rightarrow> stream" where
  \<comment> \<open>the dict a record-start line creates: the id (or the empty string) and the type\<close>
  "new_stream line ty =
     \<lparr>id_key = Some (case re_search match_id line of Some g \<Rightarrow> g | None \<Rightarrow> []),
      type_key = Some ty, app_name = None, muted = None, volume = None\<rparr>"

section \<open>The two parsers\<close>

definition sink_line :: "string \<Rightarrow> stream list \<times> stream \<Rightarrow> stream list \<times> stream" where
  \<comment> \<open>one pass of the loop body of \<^verbatim>\<open>_get_sink_inputs\<close> on the pair
      (\<^verbatim>\<open>sinks\<close>, \<^verbatim>\<open>current_sink\<close>)\<close>
  "sink_line raw st =
     (let line = strip raw; sinks = fst st; current_sink = snd st in
      if startswith ''Sink Input #'' line then
        ((if truthy current_sink then sinks @ [current_sink] else sinks),
         new_stream line ''sink-input'')
      else if contains ''application.name'' line then
        (case re_search match_app_name line of
           Some g \<Rightarrow> (sinks, current_sink\<lparr>app_name := Some g\<rparr>)
         | None \<Rightarrow> (sinks, current_sink))
      else if startswith ''Mute:'' line then
        (sinks, current_sink\<lparr>muted := Some (contains ''yes'' (lower line))\<rparr>)
      else if startswith ''Volume:'' line then
        (case re_search match_volume line of
           Some g \<Rightarrow> (sinks, current_sink\<lparr>volume := Some (int_of_str g)\<rparr>)
         | None \<Rightarrow> (sinks, current_sink))
      else (sinks, current_sink))"

definition source_line :: "string \<Rightarrow> stream list \<times> stream \<Rightarrow> stream list \<times> stream" where
  \<comment> \<open>one pass of the loop body of \<^verbatim>\<open>_get_source_outputs\<close>\<close>
  "source_line raw st =
     (let line = strip raw; sources = fst st; current_source = snd st in
      if startswith ''Source Output #'' line then
        ((if truthy current_source then sources @ [current_source] else sources),
         new_stream line ''source-output'')
      else if contains ''application.name'' line then
        (case re_search match_app_name line of
           Some g \<Rightarrow> (sources, current_source\<lparr>app_name := Some g\<rparr>)
         | None \<Rightarrow> (sources, current_source))
      else if startswith ''Mute:'' line then
        (sources, current_source\<lparr>muted := Some (contains ''yes'' (lower line))\<rparr>)
      else (sources, current_source))"

fun parse_loop ::
  "(string \<Rightarrow> stream list \<times> stream \<Rightarrow> stream list \<times> stream) \<Rightarrow> string list \<Rightarrow>
   stream list \<times> stream \<Rightarrow> stream list \<times> stream" where
  \<comment> \<open>\<^verbatim>\<open>for line in output.split('\n')\<close>\<close>
  "parse_loop body [] st = st"
| "parse_loop body (l # ls) st = parse_loop body ls (body l st)"

definition flush :: "stream list \<times> stream \<Rightarrow> stream list" where
  \<comment> \<open>the \<^verbatim>\<open>if current: append\<close> after the loop\<close>
  "flush st = (if truthy (snd st) then fst st @ [snd st] else fst st)"

definition parse_sink_inputs :: "string \<Rightarrow> stream list" where
  \<comment> \<open>lines 33 to 64 of \<^verbatim>\<open>_get_sink_inputs\<close>, for a non-empty output\<close>
  "parse_sink_inputs output = flush (parse_loop sink_line (split_nl output) ([], empty_stream))"

definition parse_source_outputs :: "string \<Rightarrow> stream list" where
  \<comment> \<open>lines 72 to 98 of \<^verbatim>\<open>_get_source_outputs\<close>, for a non-empty output\<close>
  "parse_source_outputs output =
     flush (parse_loop source_line (split_nl output) ([], empty_stream))"

section \<open>The external tool\<close>

text \<open>
  \<^verbatim>\<open>subprocess.run(command, capture_output=True, text=True, check=True)\<close> either completes
  with exit status zero and the captured standard output, or raises
  \<^verbatim>\<open>CalledProcessError\<close> (a non-zero exit status), or raises something else: the program
  cannot be started, its output cannot be decoded.  The outside world the tool reads and
  changes is a state of type \<open>'w\<close> that every call threads through.
\<close>

datatype py_exception = FileNotFoundError | PermissionError | UnicodeDecodeError

datatype proc_result = Completed string | CalledProcessError | Raised py_exception

type_synonym 'w tool = "string list \<Rightarrow> 'w \<Rightarrow> proc_result \<times> 'w"

definition run_command ::
  "'w tool \<Rightarrow> string list \<Rightarrow> 'w \<Rightarrow> (py_exception + string option) \<times> 'w" where
  \<comment> \<open>\<^verbatim>\<open>_run_command\<close>: only \<^verbatim>\<open>CalledProcessError\<close> is caught and becomes \<^verbatim>\<open>None\<close>\<close>
  "run_command run command w =
     (case run command w of
        (Completed out, w') \<Rightarrow> (Inr (Some out), w')
      | (CalledProcessError, w') \<Rightarrow> (Inr None, w')
      | (Raised e, w') \<Rightarrow> (Inl e, w'))"

definition get_sink_inputs :: "'w tool \<Rightarrow> 'w \<Rightarrow> (py_exception + stream list) \<times> 'w" where
  \<comment> \<open>\<^verbatim>\<open>_get_sink_inputs\<close>; \<^verbatim>\<open>not output\<close> holds for \<^verbatim>\<open>None\<close> and for the empty string\<close>
  "get_sink_inputs run w =
     (case run_command run [''pactl'', ''list'', ''sink-inputs''] w of
        (Inl e, w') \<Rightarrow> (Inl e, w')
      | (Inr None, w') \<Rightarrow> (Inr [], w')
      | (Inr (Some output), w') \<Rightarrow>
          if output = [] then (Inr [], w') else (Inr (parse_sink_inputs output), w'))"

definition get_source_outputs :: "'w tool \<Rightarrow> 'w \<Rightarrow> (py_exception + stream list) \<times> 'w" where
  \<comment> \<open>\<^verbatim>\<open>_get_source_outputs\<close>\<close>
  "get_source_outputs run w =
     (case run_command run [''pactl'', ''list'', ''source-outputs''] w of
        (Inl e, w') \<Rightarrow> (Inl e, w')
      | (Inr None, w') \<Rightarrow> (Inr [], w')
      | (Inr (Some output), w') \<Rightarrow>
          if output = [] then (Inr [], w') else (Inr (parse_source_outputs output), w'))"

section \<open>Selecting the Discord streams\<close>

definition discord_patterns :: "string list" where
  "discord_patterns =
     [''WEBRTC VoiceEngine'', ''Discord'', ''discord'', ''playStream'', ''recStream'']"

fun pattern_loop :: "string list \<Rightarrow> string \<Rightarrow> bool" where
  \<comment> \<open>the inner \<^verbatim>\<open>for pattern in self.discord_patterns\<close>: True when it appends and breaks\<close>
  "pattern_loop [] name = False"
| "pattern_loop (pattern # ps) name =
     (if contains (lower pattern) name then True else pattern_loop ps name)"

fun stream_loop :: "stream list \<Rightarrow> stream list \<Rightarrow> stream list" where
  \<comment> \<open>the outer \<^verbatim>\<open>for stream in all_streams\<close>, with \<^verbatim>\<open>discord_streams\<close> as accumulator\<close>
  "stream_loop [] discord_streams = discord_streams"
| "stream_loop (s # ss) discord_streams =
     (let name = lower (case app_name s of Some n \<Rightarrow> n | None \<Rightarrow> []) in
      stream_loop ss
        (if pattern_loop discord_patterns name then discord_streams @ [s] else discord_streams))"

definition find_discord_streams :: "'w tool \<Rightarrow> 'w \<Rightarrow> (py_exception + stream list) \<times> 'w" where
  \<comment> \<open>\<^verbatim>\<open>_find_discord_streams\<close>: the playback listing is queried first\<close>
  "find_discord_streams run w =
     (case get_sink_inputs run w of
        (Inl e, w1) \<Rightarrow> (Inl e, w1)
      | (Inr sinks, w1) \<Rightarrow>
          (case get_source_outputs run w1 of
             (Inl e, w2) \<Rightarrow> (Inl e, w2)
           | (Inr sources, w2) \<Rightarrow> (Inr (stream_loop (sinks @ sources) []), w2)))"

section \<open>Status\<close>

record stream_info =
  info_id :: "string option"
  info_type :: string
  info_app_name :: string
  info_muted :: bool
  info_volume :: "int option"

record status =
  status_success :: bool
  found :: bool
  status_message :: string
  streams :: "stream_info list"

definition stream_info_of :: "stream \<Rightarrow> stream_info" where
  \<comment> \<open>the dict built in the loop of \<^verbatim>\<open>get_status\<close>\<close>
  "stream_info_of s =
     \<lparr>info_id = id_key s,
      info_type = (if type_key s = Some ''sink-input'' then ''playback'' else ''recording''),
      info_app_name = (case app_name s of Some n \<Rightarrow> n | None \<Rightarrow> ''Unknown''),
      info_muted = (case muted s of Some b \<Rightarrow> b | None \<Rightarrow> False),
      info_volume = volume s\<rparr>"

definition get_status :: "'w tool \<Rightarrow> 'w \<Rightarrow> (py_exception + status) \<times> 'w" where
  "get_status run w =
     (case find_discord_streams run w of
        (Inl e, w') \<Rightarrow> (Inl e, w')
      | (Inr discord_streams, w') \<Rightarrow>
          if discord_streams = [] then
            (Inr \<lparr>status_success = True, found = False,
                  status_message = ''No Discord streams found'', streams = []\<rparr>, w')
          else
            (Inr \<lparr>status_success = True, found = True,
                  status_message =
                    ''Found '' @ str_of_nat (length discord_streams) @ '' Discord streams'',
                  streams = map stream_info_of discord_streams\<rparr>, w'))"

section \<open>Muting\<close>

record stream_result =
  res_id :: string
  res_type :: string
  res_app_name :: string
  res_success :: bool
  res_action :: string

text \<open>
  The dict \<^verbatim>\<open>set_mute\<close> and \<^verbatim>\<open>toggle_mute\<close> return.  The keys \<^verbatim>\<open>"action"\<close>,
  \<^verbatim>\<open>"total_streams"\<close> and \<^verbatim>\<open>"results"\<close> are absent (\<open>None\<close>) from the dict returned when
  no stream was selected.
\<close>

record summary =
  success :: bool
  message :: string
  action :: "string option"
  streams_affected :: nat
  total_streams :: "nat option"
  results :: "stream_result list option"

definition mute_command :: "stream \<Rightarrow> string \<Rightarrow> (string list \<times> string) option" where
  \<comment> \<open>the head of the per-stream loop body: \<^verbatim>\<open>cmd\<close> and \<^verbatim>\<open>stream_desc\<close>, or \<open>None\<close>
      where the source says \<^verbatim>\<open>continue\<close>\<close>
  "mute_command s target_state =
     (case (id_key s, type_key s) of
        (Some stream_id, Some stream_type) \<Rightarrow>
          if stream_id = [] \<or> stream_type = [] then None
          else if stream_type = ''sink-input'' then
            Some ([''pactl'', ''set-sink-input-mute'', stream_id, target_state], ''playback'')
          else if stream_type = ''source-output'' then
            Some ([''pactl'', ''set-source-output-mute'', stream_id, target_state], ''recording'')
          else None
      | _ \<Rightarrow> None)"

fun mute_loop ::
  "'w tool \<Rightarrow> string \<Rightarrow> string \<Rightarrow> stream list \<Rightarrow> stream_result list \<times> nat \<Rightarrow> 'w \<Rightarrow>
   (py_exception + stream_result list \<times> nat) \<times> 'w" where
  \<comment> \<open>\<^verbatim>\<open>for stream in discord_streams\<close>, the same text in \<^verbatim>\<open>toggle_mute\<close> and
      \<^verbatim>\<open>set_mute\<close>, on the pair (\<^verbatim>\<open>results\<close>, \<^verbatim>\<open>success_count\<close>)\<close>
  "mute_loop run target_state act [] acc w = (Inr acc, w)"
| "mute_loop run target_state act (s # ss) acc w =
     (case mute_command s target_state of
        None \<Rightarrow> mute_loop run target_state act ss acc w
      | Some (cmd, stream_desc) \<Rightarrow>
          (case run_command run cmd w of
             (Inl e, w') \<Rightarrow> (Inl e, w')
           | (Inr result, w') \<Rightarrow>
               mute_loop run target_state act ss
                 (fst acc @
                    [\<lparr>res_id = (case id_key s of Some i \<Rightarrow> i | None \<Rightarrow> []),
                      res_type = stream_desc,
                      res_app_name = (case app_name s of Some n \<Rightarrow> n | None \<Rightarrow> ''Unknown''),
                      res_success = (result \<noteq> None),
                      res_action = act\<rparr>],
                  if result \<noteq> None then snd acc + 1 else snd acc) w'))"

definition no_streams :: summary where
  \<comment> \<open>the dict returned when \<^verbatim>\<open>not discord_streams\<close>\<close>
  "no_streams =
     \<lparr>success = False, message = ''No Discord streams found'', action = None,
      streams_affected = 0, total_streams = None, results = None\<rparr>"

definition mute_streams ::
  "'w tool \<Rightarrow> string \<Rightarrow> string \<Rightarrow> stream list \<Rightarrow> 'w \<Rightarrow> (py_exception + summary) \<times> 'w" where
  \<comment> \<open>the loop and the final \<^verbatim>\<open>return\<close>, the same text in both functions\<close>
  "mute_streams run target_state act discord_streams w =
     (case mute_loop run target_state act discord_streams ([], 0) w of
        (Inl e, w') \<Rightarrow> (Inl e, w')
      | (Inr (rs, success_count), w') \<Rightarrow>
          (Inr \<lparr>success = (success_count > 0),
                message = ''Successfully '' @ act @ '' '' @ str_of_nat success_count @ ''/''
                          @ str_of_nat (length discord_streams) @ '' streams'',
                action = Some act,
                streams_affected = success_count,
                total_streams = Some (length discord_streams),
                results = Some rs\<rparr>, w'))"

definition toggle_mute :: "'w tool \<Rightarrow> 'w \<Rightarrow> (py_exception + summary) \<times> 'w" where
  "toggle_mute run w =
     (case find_discord_streams run w of
        (Inl e, w') \<Rightarrow> (Inl e, w')
      | (Inr discord_streams, w') \<Rightarrow>
          (case discord_streams of
             [] \<Rightarrow> (Inr no_streams, w')
           | first_stream # _ \<Rightarrow>
               (let is_currently_muted = (case muted first_stream of Some b \<Rightarrow> b | None \<Rightarrow> False);
                    target_state = (if is_currently_muted then ''0'' else ''1'');
                    act = (if is_currently_muted then ''unmuted'' else ''muted'')
                in mute_streams run target_state act discord_streams w')))"

definition set_mute :: "'w tool \<Rightarrow> bool \<Rightarrow> 'w \<Rightarrow> (py_exception + summary) \<times> 'w" where
  "set_mute run mute w =
     (case find_discord_streams run w of
        (Inl e, w') \<Rightarrow> (Inl e, w')
      | (Inr discord_streams, w') \<Rightarrow>
          if discord_streams = [] then (Inr no_streams, w')
          else
            (let target_state = (if mute then ''1'' else ''0'');
                 act = (if mute then ''muted'' else ''unmuted'')
             in mute_streams run target_state act discord_streams w'))"

section \<open>Observing the commands a run issues\<close>

text \<open>
  \<open>traced run\<close> is the tool \<open>run\<close> with a journal in front of the world: every call appends
  the command and what became of it.
\<close>

definition traced :: "'w tool \<Rightarrow> ((string list \<times> proc_result) list \<times> 'w) tool" where
  "traced run command tw =
     (case run command (snd tw) of (r, w') \<Rightarrow> (r, (fst tw @ [(command, r)], w')))"

text \<open>
  Two tools for examples.  The world of \<open>fake_pactl\<close> holds what the two listing commands
  print (\<open>None\<close>: the command exits with a non-zero status) and the ids whose mute command
  exits with a non-zero status; every other mute command completes.  \<open>absent_pactl\<close> is the
  tool that is not installed.
\<close>

definition fake_pactl :: "(string option \<times> string option \<times> string list) tool" where
  "fake_pactl command w =
     (if command = [''pactl'', ''list'', ''sink-inputs''] then
        (case fst w of Some out \<Rightarrow> Completed out | None \<Rightarrow> CalledProcessError, w)
      else if command = [''pactl'', ''list'', ''source-outputs''] then
        (case fst (snd w) of Some out \<Rightarrow> Completed out | None \<Rightarrow> CalledProcessError, w)
      else if length command = 4 \<and> command ! 2 \<in> set (snd (snd w)) then (CalledProcessError, w)
      else (Completed [], w))"

definition absent_pactl :: "unit tool" where
  "absent_pactl command w = (Raised FileNotFoundError, w)"

section \<open>Definitions the statements are written with\<close>

definition is_discord :: "stream \<Rightarrow> bool" where
  \<comment> \<open>the test one pass of \<open>stream_loop\<close> applies\<close>
  "is_discord s =
     pattern_loop discord_patterns (lower (case app_name s of Some n \<Rightarrow> n | None \<Rightarrow> []))"

definition spec_matches :: "stream \<Rightarrow> bool" where
  \<comment> \<open>selection in the words of the specification: the application name is present and its
      lower-case form has one of the four lower-case patterns as a substring\<close>
  "spec_matches s =
     (\<exists>n. app_name s = Some n \<and>
        (\<exists>p \<in> {''webrtc voiceengine'', ''discord'', ''playstream'', ''recstream''}.
           \<exists>us vs. lower n = us @ p @ vs))"

text \<open>Two listings for examples, and a world in which muting stream 7 fails.\<close>

definition demo_sinks :: string where
  "demo_sinks = ''Sink Input #7\<newline>  Driver: protocol-native.c\<newline>  Mute: no\<newline>  Volume: front-left: 65536 / 100% / 0.00 dB\<newline>  Properties:\<newline>    application.name = \"WEBRTC VoiceEngine\"\<newline>Sink Input #8\<newline>    application.name = \"Spotify\"''"

definition demo_sources :: string where
  "demo_sources = ''Source Output #3\<newline>  Mute: yes\<newline>    application.name = \"webrtc voiceengine\"\<newline>Source Output #4\<newline>  Mute: no''"

definition demo_world :: "string option \<times> string option \<times> string list" where
  "demo_world = (Some demo_sinks, Some demo_sources, [''7''])"

text \<open>
  What the per-stream loop of \<open>set_mute\<close> and \<open>toggle_mute\<close> is expected to do, in the
  words of the specification: a stream can be commanded when it has a non-empty id and one of
  the two types; its command is the playback or the recording variant with the id and the
  target state; its result records whether the command completed.
\<close>

definition commandable :: "stream \<Rightarrow> bool" where
  "commandable s =
     ((case id_key s of Some i \<Rightarrow> i \<noteq> [] | None \<Rightarrow> False) \<and>
      (type_key s = Some ''sink-input'' \<or> type_key s = Some ''source-output''))"

definition skipped :: "stream \<Rightarrow> bool" where
  "skipped s =
     (id_key s = None \<or> id_key s = Some [] \<or>
      (type_key s \<noteq> Some ''sink-input'' \<and> type_key s \<noteq> Some ''source-output''))"

definition expected_command :: "string \<Rightarrow> stream \<Rightarrow> string list" where
  "expected_command target s =
     [''pactl'',
      if type_key s = Some ''sink-input'' then ''set-sink-input-mute''
      else ''set-source-output-mute'',
      case id_key s of Some i \<Rightarrow> i | None \<Rightarrow> [],
      target]"

fun completed :: "proc_result \<Rightarrow> bool" where
  "completed (Completed out) = True"
| "completed CalledProcessError = False"
| "completed (Raised e) = False"

definition expected_result :: "string \<Rightarrow> stream \<times> (string list \<times> proc_result) \<Rightarrow> stream_result" where
  "expected_result act p =
     \<lparr>res_id = (case id_key (fst p) of Some i \<Rightarrow> i | None \<Rightarrow> []),
      res_type = (if type_key (fst p) = Some ''sink-input'' then ''playback'' else ''recording''),
      res_app_name = (case app_name (fst p) of Some n \<Rightarrow> n | None \<Rightarrow> ''Unknown''),
      res_success = completed (snd (snd p)),
      res_action = act\<rparr>"

definition traced_summary ::
  "string \<Rightarrow> stream list \<Rightarrow> (string list \<times> proc_result) list \<Rightarrow> summary" where
  "traced_summary act sel es =
     \<lparr>success = (0 < length (filter (\<lambda>e. completed (snd e)) es)),
      message = ''Successfully '' @ act @ '' ''
                @ str_of_nat (length (filter (\<lambda>e. completed (snd e)) es)) @ ''/''
                @ str_of_nat (length sel) @ '' streams'',
      action = Some act,
      streams_affected = length (filter (\<lambda>e. completed (snd e)) es),
      total_streams = Some (length sel),
      results = Some (map (expected_result act) (zip (filter commandable sel) es))\<rparr>"

definition no_raise :: "'w tool \<Rightarrow> bool" where
  "no_raise run = (\<forall>command w e. fst (run command w) \<noteq> Raised e)"

text \<open>The records and journals of the first example.\<close>

definition demo_voice :: stream where
  "demo_voice = \<lparr>id_key = Some ''7'', type_key = Some ''sink-input'',
                  app_name = Some ''WEBRTC VoiceEngine'', muted = Some False, volume = Some 100\<rparr>"

definition demo_mic :: stream where
  "demo_mic = \<lparr>id_key = Some ''3'', type_key = Some ''source-output'',
                app_name = Some ''webrtc voiceengine'', muted = Some True, volume = None\<rparr>"

definition demo_listed :: "(string list \<times> proc_result) list" where
  "demo_listed = [([''pactl'', ''list'', ''sink-inputs''], Completed demo_sinks),
                  ([''pactl'', ''list'', ''source-outputs''], Completed demo_sources)]"

definition demo_mute_trace :: "(string list \<times> proc_result) list" where
  "demo_mute_trace = [([''pactl'', ''set-sink-input-mute'', ''7'', ''1''], CalledProcessError),
                      ([''pactl'', ''set-source-output-mute'', ''3'', ''1''], Completed [])]"

definition demo_muted :: summary where
  "demo_muted =
     \<lparr>success = True, message = ''Successfully muted 1/2 streams'', action = Some ''muted'',
      streams_affected = 1, total_streams = Some 2,
      results = Some [\<lparr>res_id = ''7'', res_type = ''playback'',
                        res_app_name = ''WEBRTC VoiceEngine'', res_success = False,
                        res_action = ''muted''\<rparr>,
                      \<lparr>res_id = ''3'', res_type = ''recording'',
                        res_app_name = ''webrtc voiceengine'', res_success = True,
                        res_action = ''muted''\<rparr>]\<rparr>"

text \<open>
  A second example: a name line before the first record-start line, a record-start line with
  no digits, and a regular record; the recording listing fails.
\<close>

definition odd_sinks :: string where
  "odd_sinks = ''application.name = \"Discord\"\<newline>Sink Input #\<newline>  application.name = \"discord canary\"\<newline>Sink Input #12\<newline>  application.name = \"Discord\"\<newline>  Mute: yes''"

definition odd_world :: "string option \<times> string option \<times> string list" where
  "odd_world = (Some odd_sinks, None, [])"

definition odd_orphan :: stream where
  "odd_orphan = \<lparr>id_key = None, type_key = None, app_name = Some ''Discord'', muted = None,
                  volume = None\<rparr>"

definition odd_noid :: stream where
  "odd_noid = \<lparr>id_key = Some [], type_key = Some ''sink-input'',
                app_name = Some ''discord canary'', muted = None, volume = None\<rparr>"

definition odd_twelve :: stream where
  "odd_twelve = \<lparr>id_key = Some ''12'', type_key = Some ''sink-input'',
                  app_name = Some ''Discord'', muted = Some True, volume = None\<rparr>"

definition odd_listed :: "(string list \<times> proc_result) list" where
  "odd_listed = [([''pactl'', ''list'', ''sink-inputs''], Completed odd_sinks),
                 ([''pactl'', ''list'', ''source-outputs''], CalledProcessError)]"





section \<open>Failure of the listing commands\<close>

lemma run_command_failed:
  "run command w = (CalledProcessError, w') \<Longrightarrow> run_command run command w = (Inr None, w')"
  by (simp add: run_command_def)

lemma run_command_raised:
  "run command w = (Raised e, w') \<Longrightarrow> run_command run command w = (Inl e, w')"
  by (simp add: run_command_def)


text \<open>
  C1, as amended.  When the listing command exits with a non-zero status, \<open>get_sink_inputs\<close>
  and \<open>get_source_outputs\<close> return the empty list and raise nothing.  When
  \<^verbatim>\<open>subprocess.run\<close> raises anything else (the tool is not installed, for one), the
  exception passes through both functions to the caller.
\<close>

theorem listing_failure:
  "(run [''pactl'', ''list'', ''sink-inputs''] w = (CalledProcessError, w')
      \<longrightarrow> get_sink_inputs run w = (Inr [], w')) \<and>
   (run [''pactl'', ''list'', ''source-outputs''] w = (CalledProcessError, w')
      \<longrightarrow> get_source_outputs run w = (Inr [], w')) \<and>
   (run [''pactl'', ''list'', ''sink-inputs''] w = (Raised e, w')
      \<longrightarrow> get_sink_inputs run w = (Inl e, w')) \<and>
   (run [''pactl'', ''list'', ''source-outputs''] w = (Raised e, w')
      \<longrightarrow> get_source_outputs run w = (Inl e, w'))"
  by (simp add: get_sink_inputs_def get_source_outputs_def run_command_failed run_command_raised)

theorem listing_failure_witness:
  "fake_pactl [''pactl'', ''list'', ''sink-inputs''] (None, None, []) =
      (CalledProcessError, (None, None, [])) \<and>
   get_sink_inputs fake_pactl (None, None, []) = (Inr [], (None, None, [])) \<and>
   fake_pactl [''pactl'', ''list'', ''source-outputs''] (None, None, []) =
      (CalledProcessError, (None, None, [])) \<and>
   get_source_outputs fake_pactl (None, None, []) = (Inr [], (None, None, [])) \<and>
   absent_pactl [''pactl'', ''list'', ''sink-inputs''] () = (Raised FileNotFoundError, ()) \<and>
   get_sink_inputs absent_pactl () = (Inl FileNotFoundError, ()) \<and>
   absent_pactl [''pactl'', ''list'', ''source-outputs''] () = (Raised FileNotFoundError, ()) \<and>
   get_source_outputs absent_pactl () = (Inl FileNotFoundError, ())"
  using listing_failure [of fake_pactl "(None, None, [])" "(None, None, [])"]
    listing_failure [of absent_pactl "()" "()" FileNotFoundError]
  by (simp add: fake_pactl_def absent_pactl_def)

text \<open>
  C1 as stated fails when the tool is not found: \<^verbatim>\<open>FileNotFoundError\<close> is not a
  \<^verbatim>\<open>CalledProcessError\<close>, so \<open>get_sink_inputs\<close> raises it instead of returning the empty
  list.
\<close>

theorem listing_tool_not_found_counterexample:
  "get_sink_inputs absent_pactl () =
     (Inl FileNotFoundError, ()) \<and>
   fst (get_sink_inputs absent_pactl ())
     \<noteq> Inr []"
  by (simp add: get_sink_inputs_def run_command_def fake_pactl_def absent_pactl_def)

section \<open>Selection\<close>

lemma startswith_iff: "startswith p s \<longleftrightarrow> (\<exists>vs. s = p @ vs)"
  by (induction p s rule: startswith.induct) auto

lemma contains_iff: "contains p s \<longleftrightarrow> (\<exists>us vs. s = us @ p @ vs)"
proof (induction s)
  case Nil
  then show ?case by auto
next
  case (Cons c cs)
  show ?case
  proof
    assume "contains p (c # cs)"
    then consider "startswith p (c # cs)" | "contains p cs" by auto
    then show "\<exists>us vs. c # cs = us @ p @ vs"
    proof cases
      case 1
      then obtain vs where "c # cs = p @ vs" by (auto simp: startswith_iff)
      then have "c # cs = [] @ p @ vs" by simp
      then show ?thesis by blast
    next
      case 2
      then obtain us vs where "cs = us @ p @ vs" using Cons.IH by blast
      then have "c # cs = (c # us) @ p @ vs" by simp
      then show ?thesis by blast
    qed
  next
    assume "\<exists>us vs. c # cs = us @ p @ vs"
    then obtain us vs where eq: "c # cs = us @ p @ vs" by blast
    show "contains p (c # cs)"
    proof (cases us)
      case Nil
      with eq have "startswith p (c # cs)" by (auto simp: startswith_iff)
      then show ?thesis by simp
    next
      case (Cons u us')
      with eq have "cs = us' @ p @ vs" by simp
      then have "contains p cs" using Cons.IH by blast
      then show ?thesis by simp
    qed
  qed
qed

lemma pattern_loop_iff: "pattern_loop ps name \<longleftrightarrow> (\<exists>p\<in>set ps. contains (lower p) name)"
  by (induction ps) auto

lemma stream_loop_filter: "stream_loop xs acc = acc @ filter is_discord xs"
  by (induction xs arbitrary: acc) (simp_all add: is_discord_def)

lemma lower_patterns:
  "set (map lower discord_patterns) =
     {''webrtc voiceengine'', ''discord'', ''playstream'', ''recstream''}"
  by (simp add: discord_patterns_def lower_def lower_char_def insert_commute)

lemma lower_patterns_image:
  "lower ` set discord_patterns =
     {''webrtc voiceengine'', ''discord'', ''playstream'', ''recstream''}"
  using lower_patterns by simp

lemma is_discord_spec: "is_discord s = spec_matches s"
proof -
  have a: "is_discord s \<longleftrightarrow>
    (\<exists>p\<in>lower ` set discord_patterns. contains p (lower (case app_name s of Some n \<Rightarrow> n | None \<Rightarrow> [])))"
    by (simp add: is_discord_def pattern_loop_iff)
  show ?thesis
  proof (cases "app_name s")
    case None
    then show ?thesis unfolding a lower_patterns_image spec_matches_def
      by (simp add: lower_def)
  next
    case (Some n)
    then show ?thesis unfolding a lower_patterns_image spec_matches_def
      by (simp add: contains_iff)
  qed
qed

subsection \<open>Evaluating the examples\<close>

lemma demo_get_sinks: "get_sink_inputs fake_pactl demo_world =
     (Inr [\<lparr>id_key = Some ''7'', type_key = Some ''sink-input'',
            app_name = Some ''WEBRTC VoiceEngine'', muted = Some False, volume = Some 100\<rparr>,
           \<lparr>id_key = Some ''8'', type_key = Some ''sink-input'',
            app_name = Some ''Spotify'', muted = None, volume = None\<rparr>], demo_world)"
  by code_simp

lemma demo_get_sources: "get_source_outputs fake_pactl demo_world =
     (Inr [\<lparr>id_key = Some ''3'', type_key = Some ''source-output'',
            app_name = Some ''webrtc voiceengine'', muted = Some True, volume = None\<rparr>,
           \<lparr>id_key = Some ''4'', type_key = Some ''source-output'',
            app_name = None, muted = Some False, volume = None\<rparr>], demo_world)"
  by code_simp

lemma demo_find: "find_discord_streams fake_pactl demo_world =
     (Inr [\<lparr>id_key = Some ''7'', type_key = Some ''sink-input'',
            app_name = Some ''WEBRTC VoiceEngine'', muted = Some False, volume = Some 100\<rparr>,
           \<lparr>id_key = Some ''3'', type_key = Some ''source-output'',
            app_name = Some ''webrtc voiceengine'', muted = Some True, volume = None\<rparr>], demo_world)"
  by code_simp

lemma quiet_find:
  "find_discord_streams fake_pactl (Some [], None, []) =
     (Inr [], (Some [], None, []))"
  by (simp add: find_discord_streams_def get_sink_inputs_def get_source_outputs_def
      run_command_def fake_pactl_def absent_pactl_def)

lemma absent_find:
  "find_discord_streams absent_pactl () =
     (Inl FileNotFoundError, ())"
  by (simp add: find_discord_streams_def get_sink_inputs_def run_command_def fake_pactl_def absent_pactl_def)


text \<open>
  C6.  \<open>find_discord_streams\<close> returns exactly the records of the playback inventory followed
  by the recording inventory, in their order, whose application name is present and, in lower
  case, contains one of \<^verbatim>\<open>webrtc voiceengine\<close>, \<^verbatim>\<open>discord\<close>, \<^verbatim>\<open>playstream\<close>,
  \<^verbatim>\<open>recstream\<close>.  The witness selects \<^verbatim>\<open>WEBRTC VoiceEngine\<close> and
  \<^verbatim>\<open>webrtc voiceengine\<close> alike and leaves out \<^verbatim>\<open>Spotify\<close> and a record with no name.
\<close>

theorem find_discord_streams_spec:
  assumes "get_sink_inputs run w = (Inr sinks, w1)"
    and "get_source_outputs run w1 = (Inr sources, w2)"
  shows "find_discord_streams run w = (Inr (filter spec_matches (sinks @ sources)), w2)"
proof -
  have "is_discord = spec_matches" by (rule ext) (rule is_discord_spec)
  with assms show ?thesis
    by (simp add: find_discord_streams_def stream_loop_filter)
qed

theorem find_discord_streams_spec_witness:
  "get_sink_inputs fake_pactl demo_world =
     (Inr [\<lparr>id_key = Some ''7'', type_key = Some ''sink-input'',
            app_name = Some ''WEBRTC VoiceEngine'', muted = Some False, volume = Some 100\<rparr>,
           \<lparr>id_key = Some ''8'', type_key = Some ''sink-input'',
            app_name = Some ''Spotify'', muted = None, volume = None\<rparr>], demo_world) \<and>
   get_source_outputs fake_pactl demo_world =
     (Inr [\<lparr>id_key = Some ''3'', type_key = Some ''source-output'',
            app_name = Some ''webrtc voiceengine'', muted = Some True, volume = None\<rparr>,
           \<lparr>id_key = Some ''4'', type_key = Some ''source-output'',
            app_name = None, muted = Some False, volume = None\<rparr>], demo_world) \<and>
   filter spec_matches
     ([\<lparr>id_key = Some ''7'', type_key = Some ''sink-input'',
            app_name = Some ''WEBRTC VoiceEngine'', muted = Some False, volume = Some 100\<rparr>,
           \<lparr>id_key = Some ''8'', type_key = Some ''sink-input'',
            app_name = Some ''Spotify'', muted = None, volume = None\<rparr>] @
      [\<lparr>id_key = Some ''3'', type_key = Some ''source-output'',
            app_name = Some ''webrtc voiceengine'', muted = Some True, volume = None\<rparr>,
           \<lparr>id_key = Some ''4'', type_key = Some ''source-output'',
            app_name = None, muted = Some False, volume = None\<rparr>]) =
     [\<lparr>id_key = Some ''7'', type_key = Some ''sink-input'',
            app_name = Some ''WEBRTC VoiceEngine'', muted = Some False, volume = Some 100\<rparr>,
      \<lparr>id_key = Some ''3'', type_key = Some ''source-output'',
            app_name = Some ''webrtc voiceengine'', muted = Some True, volume = None\<rparr>]"
  using find_discord_streams_spec [OF demo_get_sinks demo_get_sources]
    demo_find demo_get_sinks demo_get_sources
  by simp

section \<open>No stream selected\<close>

text \<open>
  C3, as amended.  When no stream is selected, \<open>set_mute\<close> (for either argument) and
  \<open>toggle_mute\<close> return the same dict: \<^verbatim>\<open>success\<close> false, \<^verbatim>\<open>streams_affected\<close> 0, the
  fixed message, and no \<^verbatim>\<open>total_streams\<close>, \<^verbatim>\<open>results\<close> or \<^verbatim>\<open>action\<close> key.
\<close>

theorem empty_selection_summary:
  assumes "find_discord_streams run w = (Inr [], w')"
  shows "\<exists>s. set_mute run mute w = (Inr s, w') \<and> toggle_mute run w = (Inr s, w') \<and>
           \<not> success s \<and> streams_affected s = 0 \<and> message s = ''No Discord streams found'' \<and>
           total_streams s = None \<and> results s = None \<and> action s = None"
  using assms by (simp add: set_mute_def toggle_mute_def no_streams_def)

theorem empty_selection_summary_witness:
  "find_discord_streams fake_pactl (Some [], None, []) =
     (Inr [], (Some [], None, [])) \<and>
   (\<exists>s. set_mute fake_pactl False (Some [], None, []) =
          (Inr s, (Some [], None, [])) \<and>
        toggle_mute fake_pactl (Some [], None, []) =
          (Inr s, (Some [], None, [])) \<and>
        \<not> success s \<and> streams_affected s = 0 \<and> message s = ''No Discord streams found'' \<and>
        total_streams s = None \<and> results s = None \<and> action s = None)"
  using empty_selection_summary [OF quiet_find, of False] quiet_find by simp

text \<open>
  C3 as stated asks for \<^verbatim>\<open>total_streams\<close> = 0; the dict returned for an empty selection
  has no such key.
\<close>

theorem empty_selection_total_counterexample:
  "find_discord_streams fake_pactl (Some [], Some [], []) =
     (Inr [], (Some [], Some [], [])) \<and>
   set_mute fake_pactl True (Some [], Some [], []) =
     (Inr \<lparr>success = False, message = ''No Discord streams found'', action = None,
           streams_affected = 0, total_streams = None, results = None\<rparr>,
      (Some [], Some [], [])) \<and>
   total_streams \<lparr>success = False, message = ''No Discord streams found'', action = None,
           streams_affected = 0, total_streams = None, results = None\<rparr> \<noteq> Some 0"
  by (simp add: set_mute_def no_streams_def find_discord_streams_def get_sink_inputs_def
      get_source_outputs_def run_command_def fake_pactl_def absent_pactl_def)

section \<open>Status\<close>



text \<open>
  C10, as amended.  Every result \<open>get_status\<close> returns has \<^verbatim>\<open>success\<close> true, and it
  returns one whenever the selection could be computed, also when nothing matched and when a
  listing command exited with a non-zero status.  When the selection raises, \<open>get_status\<close>
  raises the same exception and returns no result.
\<close>

theorem get_status_success:
  "(\<forall>st w'. get_status run w = (Inr st, w') \<longrightarrow> status_success st) \<and>
   (\<forall>sel w'. find_discord_streams run w = (Inr sel, w') \<longrightarrow>
      (\<exists>st. get_status run w = (Inr st, w') \<and> status_success st \<and> found st = (sel \<noteq> []))) \<and>
   (\<forall>e w'. find_discord_streams run w = (Inl e, w') \<longrightarrow> get_status run w = (Inl e, w'))"
  by (auto simp: get_status_def split: prod.splits sum.splits if_splits)

theorem get_status_success_witness:
  "find_discord_streams fake_pactl (Some [], None, []) =
     (Inr [], (Some [], None, [])) \<and>
   (\<exists>st. get_status fake_pactl (Some [], None, []) =
           (Inr st, (Some [], None, [])) \<and> status_success st \<and> \<not> found st) \<and>
   find_discord_streams absent_pactl () =
     (Inl FileNotFoundError, ()) \<and>
   get_status absent_pactl () =
     (Inl FileNotFoundError, ())"
  using get_status_success [of fake_pactl "(Some [], None, [])"]
    get_status_success [of absent_pactl "()"]
    quiet_find absent_find
  by simp

text \<open>
  C10 as stated fails when the tool cannot be run at all: \<open>get_status\<close> returns no result.
\<close>

theorem get_status_tool_not_found_counterexample:
  "get_status absent_pactl () =
     (Inl FileNotFoundError, ())"
  by (simp add: get_status_def find_discord_streams_def get_sink_inputs_def run_command_def
      fake_pactl_def absent_pactl_def)

section \<open>The per-stream loop\<close>

lemma mute_command_skip: "\<not> commandable s \<Longrightarrow> mute_command s t = None"
  by (auto simp: commandable_def mute_command_def split: option.splits)

lemma mute_command_commandable:
  "commandable s \<Longrightarrow>
   mute_command s t =
     Some (expected_command t s,
           if type_key s = Some ''sink-input'' then ''playback'' else ''recording'')"
  by (auto simp: commandable_def mute_command_def expected_command_def split: option.splits)

lemma mute_loop_skip:
  "mute_loop run t a ss acc w = mute_loop run t a (filter commandable ss) acc w"
proof (induction ss arbitrary: acc w)
  case Nil
  then show ?case by simp
next
  case (Cons s ss)
  show ?case
  proof (cases "commandable s")
    case True
    then show ?thesis
      using Cons.IH by (simp add: mute_command_commandable split: prod.splits sum.splits)
  next
    case False
    then show ?thesis using Cons.IH by (simp add: mute_command_skip)
  qed
qed

lemma mute_loop_counts:
  "mute_loop run t a ss acc w = (Inr (rs, n), w') \<Longrightarrow>
   \<exists>new. rs = fst acc @ new \<and> n = snd acc + length (filter res_success new) \<and>
         length new = length (filter commandable ss) \<and> (\<forall>r\<in>set new. res_action r = a \<and> res_id r \<noteq> [])"
proof (induction ss arbitrary: acc w)
  case Nil
  then show ?case by auto
next
  case (Cons s ss)
  show ?case
  proof (cases "commandable s")
    case False
    then show ?thesis using Cons by (simp add: mute_command_skip)
  next
    case True
    obtain r w1 where rc: "run_command run (expected_command t s) w = (r, w1)"
      by (cases "run_command run (expected_command t s) w")
    show ?thesis
    proof (cases r)
      case (Inl e)
      with Cons.prems True rc show ?thesis by (simp add: mute_command_commandable)
    next
      case (Inr result)
      let ?x = "\<lparr>res_id = (case id_key s of Some i \<Rightarrow> i | None \<Rightarrow> []),
                 res_type = (if type_key s = Some ''sink-input'' then ''playback'' else ''recording''),
                 res_app_name = (case app_name s of Some n \<Rightarrow> n | None \<Rightarrow> ''Unknown''),
                 res_success = (result \<noteq> None), res_action = a\<rparr>"
      let ?acc = "(fst acc @ [?x], if result \<noteq> None then snd acc + 1 else snd acc)"
      from Cons.prems True rc Inr
      have "mute_loop run t a ss ?acc w1 = (Inr (rs, n), w')"
        by (simp add: mute_command_commandable)
      from Cons.IH [OF this] obtain new where
        new: "rs = fst ?acc @ new" "n = snd ?acc + length (filter res_success new)"
          "length new = length (filter commandable ss)" "\<forall>r\<in>set new. res_action r = a \<and> res_id r \<noteq> []"
        by blast
      have idne: "res_id ?x \<noteq> []" using True
        by (cases "id_key s") (auto simp: commandable_def)
      have "rs = fst acc @ (?x # new)" using new(1) by simp
      moreover have "n = snd acc + length (filter res_success (?x # new))"
        using new(2) by simp
      moreover have "length (?x # new) = length (filter commandable (s # ss))"
        using new(3) True by simp
      moreover have "\<forall>r\<in>set (?x # new). res_action r = a \<and> res_id r \<noteq> []" using new(4) idne by simp
      ultimately show ?thesis by blast
    qed
  qed
qed

lemma run_command_traced:
  "run command w = (r, w1) \<Longrightarrow>
   run_command (traced run) command (tr, w) =
     (case r of Completed out \<Rightarrow> Inr (Some out) | CalledProcessError \<Rightarrow> Inr None
              | Raised e \<Rightarrow> Inl e,
      (tr @ [(command, r)], w1))"
  by (cases r) (simp_all add: run_command_def traced_def)

lemma mute_loop_traced:
  assumes "no_raise run"
  shows "\<exists>es w'.
           mute_loop (traced run) t a ss acc (tr, w) =
             (Inr (fst acc @ map (expected_result a) (zip (filter commandable ss) es),
                   snd acc + length (filter (\<lambda>e. completed (snd e)) es)),
              (tr @ es, w')) \<and>
           map fst es = map (expected_command t) (filter commandable ss)"
proof (induction ss arbitrary: acc tr w)
  case Nil
  show ?case by simp
next
  case (Cons s ss)
  show ?case
  proof (cases "commandable s")
    case False
    then show ?thesis using Cons.IH [of acc tr w] by (simp add: mute_command_skip)
  next
    case True
    obtain r w1 where run: "run (expected_command t s) w = (r, w1)"
      by (cases "run (expected_command t s) w")
    from assms run have nr: "\<And>e. r \<noteq> Raised e"
      unfolding no_raise_def by (metis fst_conv)
    let ?e = "(expected_command t s, r)"
    let ?acc = "(fst acc @ [expected_result a (s, ?e)],
                 if completed r then snd acc + 1 else snd acc)"
    have rc: "run_command (traced run) (expected_command t s) (tr, w) =
                (case r of Completed out \<Rightarrow> Inr (Some out) | CalledProcessError \<Rightarrow> Inr None
                         | Raised e \<Rightarrow> Inl e, (tr @ [?e], w1))"
      using run by (rule run_command_traced)
    have step: "mute_loop (traced run) t a (s # ss) acc (tr, w) =
                mute_loop (traced run) t a ss ?acc (tr @ [?e], w1)"
    proof (cases r)
      case (Completed out)
      with True rc show ?thesis
        by (simp add: mute_command_commandable expected_result_def)
    next
      case CalledProcessError
      with True rc show ?thesis
        by (simp add: mute_command_commandable expected_result_def)
    next
      case (Raised e)
      with nr show ?thesis by blast
    qed
    from Cons.IH [of ?acc "tr @ [?e]" w1] obtain es w' where
      ih: "mute_loop (traced run) t a ss ?acc (tr @ [?e], w1) =
             (Inr (fst ?acc @ map (expected_result a) (zip (filter commandable ss) es),
                   snd ?acc + length (filter (\<lambda>e. completed (snd e)) es)),
              ((tr @ [?e]) @ es, w'))"
        "map fst es = map (expected_command t) (filter commandable ss)"
      by blast
    have "mute_loop (traced run) t a (s # ss) acc (tr, w) =
             (Inr (fst acc @ map (expected_result a) (zip (filter commandable (s # ss)) (?e # es)),
                   snd acc + length (filter (\<lambda>e. completed (snd e)) (?e # es))),
              (tr @ (?e # es), w'))"
      using step ih(1) True by simp
    moreover have "map fst (?e # es) = map (expected_command t) (filter commandable (s # ss))"
      using ih(2) True by simp
    ultimately show ?thesis by blast
  qed
qed

lemma skipped_iff: "skipped s = (\<not> commandable s)"
  by (cases "id_key s") (auto simp: skipped_def commandable_def)

lemma no_raise_fake_pactl: "no_raise fake_pactl"
  by (simp add: no_raise_def fake_pactl_def split: option.splits)

lemma mute_streams_traced:
  assumes "no_raise run"
  shows "\<exists>es w'.
           mute_streams (traced run) t a sel (tr, w) =
             (Inr (traced_summary a sel es), (tr @ es, w')) \<and>
           map fst es = map (expected_command t) (filter commandable sel)"
proof -
  from mute_loop_traced [OF assms, of t a sel "([], 0)" tr w] obtain es w' where
    l: "mute_loop (traced run) t a sel ([], 0) (tr, w) =
          (Inr (map (expected_result a) (zip (filter commandable sel) es),
                length (filter (\<lambda>e. completed (snd e)) es)), (tr @ es, w'))"
      "map fst es = map (expected_command t) (filter commandable sel)"
    by auto
  show ?thesis
    apply (rule exI [of _ es], rule exI [of _ w'])
    using l by (simp add: mute_streams_def traced_summary_def)
qed

lemma toggle_mute_unfold:
  assumes "find_discord_streams run w = (Inr sel, w0)" and "sel \<noteq> []"
  shows "toggle_mute run w =
           mute_streams run (if muted (hd sel) = Some True then ''0'' else ''1'')
             (if muted (hd sel) = Some True then ''unmuted'' else ''muted'') sel w0"
proof -
  obtain f fs where sel: "sel = f # fs" using assms(2) by (cases sel) auto
  show ?thesis using assms(1) unfolding sel
    by (cases "muted f") (auto simp: toggle_mute_def Let_def)
qed

lemma set_mute_unfold:
  assumes "find_discord_streams run w = (Inr sel, w0)" and "sel \<noteq> []"
  shows "set_mute run mute w =
           mute_streams run (if mute then ''1'' else ''0'')
             (if mute then ''muted'' else ''unmuted'') sel w0"
  using assms by (simp add: set_mute_def)

lemma set_mute_traced:
  assumes "no_raise run"
    and "find_discord_streams (traced run) ([], w) = (Inr sel, (tr0, w0))"
    and "sel \<noteq> []"
  shows "\<exists>es w'.
           set_mute (traced run) mute ([], w) =
             (Inr (traced_summary (if mute then ''muted'' else ''unmuted'') sel es),
              (tr0 @ es, w')) \<and>
           map fst es = map (expected_command (if mute then ''1'' else ''0''))
                            (filter commandable sel)"
  unfolding set_mute_unfold [OF assms(2,3)]
  by (rule mute_streams_traced [OF assms(1)])

lemma toggle_mute_traced:
  assumes "no_raise run"
    and "find_discord_streams (traced run) ([], w) = (Inr sel, (tr0, w0))"
    and "sel \<noteq> []"
  shows "\<exists>es w'.
           toggle_mute (traced run) ([], w) =
             (Inr (traced_summary (if muted (hd sel) = Some True then ''unmuted'' else ''muted'')
                     sel es),
              (tr0 @ es, w')) \<and>
           map fst es = map (expected_command (if muted (hd sel) = Some True then ''0'' else ''1''))
                            (filter commandable sel)"
  unfolding toggle_mute_unfold [OF assms(2,3)]
  by (rule mute_streams_traced [OF assms(1)])

lemma mute_streams_invariant:
  assumes "mute_streams run t a sel w = (Inr s, w')"
  shows "success s = (0 < streams_affected s) \<and> total_streams s = Some (length sel) \<and>
         action s = Some a \<and>
         (\<exists>rs. results s = Some rs \<and> streams_affected s = length (filter res_success rs) \<and>
               length rs = length (filter commandable sel) \<and>
               (\<forall>r\<in>set rs. res_action r = a \<and> res_id r \<noteq> []))"
proof -
  from assms obtain rs n where
    l: "mute_loop run t a sel ([], 0) w = (Inr (rs, n), w')"
    and s: "s = \<lparr>success = (n > 0),
                 message = ''Successfully '' @ a @ '' '' @ str_of_nat n @ ''/''
                           @ str_of_nat (length sel) @ '' streams'',
                 action = Some a, streams_affected = n,
                 total_streams = Some (length sel), results = Some rs\<rparr>"
    by (auto simp: mute_streams_def split: prod.splits sum.splits)
  from mute_loop_counts [OF l] show ?thesis unfolding s by simp
qed


lemma filter_skipped_length:
  "length (filter commandable sel) + length (filter skipped sel) = length sel"
  by (induction sel) (auto simp: skipped_iff)

lemma not_skipped: "(\<lambda>st. \<not> skipped st) = commandable"
  by (rule ext) (simp add: skipped_iff)

lemma traced_summary_ids:
  assumes "map fst es = map (expected_command t) (filter commandable sel)"
  shows "map (\<lambda>e. fst e ! 2) es =
           map (\<lambda>st. case id_key st of Some i \<Rightarrow> i | None \<Rightarrow> []) (filter commandable sel) \<and>
         map res_id (map (expected_result a) (zip (filter commandable sel) es)) =
           map (\<lambda>st. case id_key st of Some i \<Rightarrow> i | None \<Rightarrow> []) (filter commandable sel)"
proof
  have "map (\<lambda>e. fst e ! 2) es = map (\<lambda>c. c ! 2) (map fst es)" by (simp add: o_def)
  also have "\<dots> = map (\<lambda>st. case id_key st of Some i \<Rightarrow> i | None \<Rightarrow> []) (filter commandable sel)"
    unfolding assms by (simp add: expected_command_def)
  finally show "map (\<lambda>e. fst e ! 2) es =
           map (\<lambda>st. case id_key st of Some i \<Rightarrow> i | None \<Rightarrow> []) (filter commandable sel)" .
next
  from assms have len: "length (filter commandable sel) = length es" by (metis length_map)
  have "map res_id (map (expected_result a) (zip (filter commandable sel) es)) =
        map (\<lambda>st. case id_key st of Some i \<Rightarrow> i | None \<Rightarrow> [])
            (map fst (zip (filter commandable sel) es))"
    by (simp add: expected_result_def o_def)
  also have "map fst (zip (filter commandable sel) es) = filter commandable sel"
    using len by simp
  finally show "map res_id (map (expected_result a) (zip (filter commandable sel) es)) =
           map (\<lambda>st. case id_key st of Some i \<Rightarrow> i | None \<Rightarrow> []) (filter commandable sel)" .
qed

lemma traced_summary_skips:
  assumes "map fst es = map (expected_command t) (filter commandable sel)"
  shows "total_streams (traced_summary a sel es) = Some (length sel) \<and>
         length es + length (filter skipped sel) = length sel \<and>
         map (\<lambda>e. fst e ! 2) es =
           map (\<lambda>st. case id_key st of Some i \<Rightarrow> i | None \<Rightarrow> [])
               (filter (\<lambda>st. \<not> skipped st) sel) \<and>
         (\<exists>rs. results (traced_summary a sel es) = Some rs \<and>
               length rs + length (filter skipped sel) = length sel \<and>
               map res_id rs =
                 map (\<lambda>st. case id_key st of Some i \<Rightarrow> i | None \<Rightarrow> [])
                     (filter (\<lambda>st. \<not> skipped st) sel))"
proof -
  from assms have len: "length es = length (filter commandable sel)" by (metis length_map)
  show ?thesis
    using traced_summary_ids [OF assms, of a] filter_skipped_length [of sel] len
    unfolding not_skipped by (simp add: traced_summary_def)
qed

lemma mute_loop_journal:
  "mute_loop (traced run) t a ss acc (tr, w) = (r, (tr', w')) \<Longrightarrow>
   \<exists>es. tr' = tr @ es \<and>
        map fst es = take (length es) (map (expected_command t) (filter commandable ss)) \<and>
        (\<forall>rs n. r = Inr (rs, n) \<longrightarrow>
           length es = length (filter commandable ss) \<and>
           rs = fst acc @ map (expected_result a) (zip (filter commandable ss) es) \<and>
           n = snd acc + length (filter (\<lambda>e. completed (snd e)) es))"
proof (induction ss arbitrary: acc tr w)
  case Nil
  then show ?case by auto
next
  case (Cons s ss)
  show ?case
  proof (cases "commandable s")
    case False
    then show ?thesis using Cons.IH [of acc tr w] Cons.prems by (simp add: mute_command_skip)
  next
    case True
    obtain o1 w1 where run: "run (expected_command t s) w = (o1, w1)"
      by (cases "run (expected_command t s) w")
    let ?e = "(expected_command t s, o1)"
    have rc: "run_command (traced run) (expected_command t s) (tr, w) =
                (case o1 of Completed out \<Rightarrow> Inr (Some out) | CalledProcessError \<Rightarrow> Inr None
                          | Raised e \<Rightarrow> Inl e, (tr @ [?e], w1))"
      using run by (rule run_command_traced)
    show ?thesis
    proof (cases "\<exists>e. o1 = Raised e")
      case True
      then obtain e where e: "o1 = Raised e" by blast
      with Cons.prems \<open>commandable s\<close> rc have "r = Inl e" "tr' = tr @ [?e]"
        by (simp_all add: mute_command_commandable)
      then show ?thesis using \<open>commandable s\<close> by (intro exI [of _ "[?e]"]) simp
    next
      case False
      let ?acc = "(fst acc @ [expected_result a (s, ?e)],
                   if completed o1 then snd acc + 1 else snd acc)"
      have step: "mute_loop (traced run) t a (s # ss) acc (tr, w) =
                  mute_loop (traced run) t a ss ?acc (tr @ [?e], w1)"
      proof (cases o1)
        case (Completed out)
        with \<open>commandable s\<close> rc show ?thesis
          by (simp add: mute_command_commandable expected_result_def)
      next
        case CalledProcessError
        with \<open>commandable s\<close> rc show ?thesis
          by (simp add: mute_command_commandable expected_result_def)
      next
        case (Raised e)
        with False show ?thesis by blast
      qed
      with Cons.prems have "mute_loop (traced run) t a ss ?acc (tr @ [?e], w1) = (r, (tr', w'))"
        by simp
      from Cons.IH [OF this] obtain es where
        ih: "tr' = (tr @ [?e]) @ es"
          "map fst es = take (length es) (map (expected_command t) (filter commandable ss))"
          "\<forall>rs n. r = Inr (rs, n) \<longrightarrow>
             length es = length (filter commandable ss) \<and>
             rs = fst ?acc @ map (expected_result a) (zip (filter commandable ss) es) \<and>
             n = snd ?acc + length (filter (\<lambda>e. completed (snd e)) es)"
        by blast
      show ?thesis
        using ih \<open>commandable s\<close> by (intro exI [of _ "?e # es"]) auto
    qed
  qed
qed

lemma mute_streams_journal:
  assumes "mute_streams (traced run) t a sel (tr, w) = (r, (tr', w'))"
  shows "\<exists>es. tr' = tr @ es \<and>
           map fst es = take (length es) (map (expected_command t) (filter commandable sel)) \<and>
           (\<forall>s. r = Inr s \<longrightarrow>
              length es = length (filter commandable sel) \<and> s = traced_summary a sel es)"
proof -
  obtain r0 where l: "mute_loop (traced run) t a sel ([], 0) (tr, w) = (r0, (tr', w'))"
    using assms
    by (cases "mute_loop (traced run) t a sel ([], 0) (tr, w)")
       (auto simp: mute_streams_def split: sum.splits prod.splits)
  from mute_loop_journal [OF l] obtain es where
    es: "tr' = tr @ es"
      "map fst es = take (length es) (map (expected_command t) (filter commandable sel))"
      "\<forall>rs n. r0 = Inr (rs, n) \<longrightarrow>
         length es = length (filter commandable sel) \<and>
         rs = fst ([], 0::nat) @ map (expected_result a) (zip (filter commandable sel) es) \<and>
         n = snd ([]::stream_result list, 0::nat) + length (filter (\<lambda>e. completed (snd e)) es)"
    by blast
  have "\<forall>s. r = Inr s \<longrightarrow>
          length es = length (filter commandable sel) \<and> s = traced_summary a sel es"
  proof (intro allI impI)
    fix s assume "r = Inr s"
    with assms l obtain rs n where r0: "r0 = Inr (rs, n)"
      and s: "s = \<lparr>success = (n > 0),
                   message = ''Successfully '' @ a @ '' '' @ str_of_nat n @ ''/''
                             @ str_of_nat (length sel) @ '' streams'',
                   action = Some a, streams_affected = n,
                   total_streams = Some (length sel), results = Some rs\<rparr>"
      by (auto simp: mute_streams_def split: sum.splits prod.splits)
    from es(3) r0 show "length es = length (filter commandable sel) \<and> s = traced_summary a sel es"
      unfolding s by (simp add: traced_summary_def)
  qed
  with es(1,2) show ?thesis by blast
qed

subsection \<open>Evaluating the examples\<close>

lemma demo_find_traced:
  "find_discord_streams (traced fake_pactl) ([], demo_world) =
     (Inr [demo_voice, demo_mic], (demo_listed, demo_world))"
  by code_simp

lemma demo_set_mute_traced:
  "set_mute (traced fake_pactl) True ([], demo_world) =
     (Inr demo_muted, (demo_listed @ demo_mute_trace, demo_world))"
  by code_simp

lemma demo_toggle_traced:
  "toggle_mute (traced fake_pactl) ([], demo_world) =
     (Inr demo_muted, (demo_listed @ demo_mute_trace, demo_world))"
  by code_simp

lemma demo_set_mute: "set_mute fake_pactl True demo_world = (Inr demo_muted, demo_world)"
  by code_simp

lemma demo_find_plain:
  "find_discord_streams fake_pactl demo_world = (Inr [demo_voice, demo_mic], demo_world)"
  using demo_find by (simp add: demo_voice_def demo_mic_def)

lemma quiet_toggle:
  "toggle_mute fake_pactl (Some [], None, []) = (Inr no_streams, (Some [], None, []))"
  using quiet_find by (simp add: toggle_mute_def)

lemma odd_find_traced:
  "find_discord_streams (traced fake_pactl) ([], odd_world) =
     (Inr [odd_orphan, odd_noid, odd_twelve], (odd_listed, odd_world))"
  by code_simp

lemma odd_set_mute_traced:
  "set_mute (traced fake_pactl) False ([], odd_world) =
     (Inr \<lparr>success = True, message = ''Successfully unmuted 1/3 streams'',
           action = Some ''unmuted'', streams_affected = 1, total_streams = Some 3,
           results = Some [\<lparr>res_id = ''12'', res_type = ''playback'', res_app_name = ''Discord'',
                             res_success = True, res_action = ''unmuted''\<rparr>]\<rparr>,
      (odd_listed @ [([''pactl'', ''set-sink-input-mute'', ''12'', ''0''], Completed [])],
       odd_world))"
  by code_simp

lemma odd_toggle_traced:
  "toggle_mute (traced fake_pactl) ([], odd_world) =
     (Inr \<lparr>success = True, message = ''Successfully muted 1/3 streams'',
           action = Some ''muted'', streams_affected = 1, total_streams = Some 3,
           results = Some [\<lparr>res_id = ''12'', res_type = ''playback'', res_app_name = ''Discord'',
                             res_success = True, res_action = ''muted''\<rparr>]\<rparr>,
      (odd_listed @ [([''pactl'', ''set-sink-input-mute'', ''12'', ''1''], Completed [])],
       odd_world))"
  by code_simp

subsection \<open>Commands and results\<close>

text \<open>
  C2, as amended.  Let the tool raise nothing but \<^verbatim>\<open>CalledProcessError\<close> and let the
  selection be non-empty.  Then \<open>set_mute\<close>, and \<open>toggle_mute\<close> through the same loop, return
  a summary, and the commands they issue after the two listings are, in order, exactly one per
  selected stream that has a non-empty id and a known type: the playback variant for a
  sink-input, the recording variant for a source-output, with the id and the target state
  \<^verbatim>\<open>1\<close> or \<^verbatim>\<open>0\<close>.  The results are one per such command, in the same order, and
  \<^verbatim>\<open>success\<close> of a result tells whether its command completed; a command that exits with a
  non-zero status is recorded as failed and the loop goes on.
\<close>

theorem set_mute_commands:
  assumes "no_raise run"
    and "find_discord_streams (traced run) ([], w) = (Inr sel, (tr0, w0))"
    and "sel \<noteq> []"
  shows "(\<exists>s es w'.
            set_mute (traced run) mute ([], w) = (Inr s, (tr0 @ es, w')) \<and>
            map fst es = map (expected_command (if mute then ''1'' else ''0''))
                             (filter commandable sel) \<and>
            results s = Some (map (expected_result (if mute then ''muted'' else ''unmuted''))
                                  (zip (filter commandable sel) es))) \<and>
         (\<exists>s es w'.
            toggle_mute (traced run) ([], w) = (Inr s, (tr0 @ es, w')) \<and>
            map fst es = map (expected_command (if muted (hd sel) = Some True then ''0'' else ''1''))
                             (filter commandable sel) \<and>
            results s =
              Some (map (expected_result (if muted (hd sel) = Some True then ''unmuted''
                                          else ''muted''))
                        (zip (filter commandable sel) es)))"
proof
  from set_mute_traced [OF assms, of mute] obtain es w' where
    "set_mute (traced run) mute ([], w) =
       (Inr (traced_summary (if mute then ''muted'' else ''unmuted'') sel es), (tr0 @ es, w'))"
    "map fst es = map (expected_command (if mute then ''1'' else ''0'')) (filter commandable sel)"
    by blast
  moreover have "results (traced_summary (if mute then ''muted'' else ''unmuted'') sel es) =
      Some (map (expected_result (if mute then ''muted'' else ''unmuted''))
                (zip (filter commandable sel) es))"
    by (simp add: traced_summary_def)
  ultimately show "\<exists>s es w'.
            set_mute (traced run) mute ([], w) = (Inr s, (tr0 @ es, w')) \<and>
            map fst es = map (expected_command (if mute then ''1'' else ''0''))
                             (filter commandable sel) \<and>
            results s = Some (map (expected_result (if mute then ''muted'' else ''unmuted''))
                                  (zip (filter commandable sel) es))"
    by blast
next
  let ?t = "if muted (hd sel) = Some True then ''0'' else ''1''"
  let ?a = "if muted (hd sel) = Some True then ''unmuted'' else ''muted''"
  from toggle_mute_traced [OF assms] obtain es w' where
    "toggle_mute (traced run) ([], w) = (Inr (traced_summary ?a sel es), (tr0 @ es, w'))"
    "map fst es = map (expected_command ?t) (filter commandable sel)"
    by blast
  moreover have "results (traced_summary ?a sel es) =
      Some (map (expected_result ?a) (zip (filter commandable sel) es))"
    by (simp add: traced_summary_def)
  ultimately show "\<exists>s es w'.
            toggle_mute (traced run) ([], w) = (Inr s, (tr0 @ es, w')) \<and>
            map fst es = map (expected_command ?t) (filter commandable sel) \<and>
            results s = Some (map (expected_result ?a) (zip (filter commandable sel) es))"
    by blast
qed

theorem set_mute_commands_witness:
  "no_raise fake_pactl \<and>
   find_discord_streams (traced fake_pactl) ([], demo_world) =
     (Inr [demo_voice, demo_mic], (demo_listed, demo_world)) \<and>
   [demo_voice, demo_mic] \<noteq> [] \<and>
   set_mute (traced fake_pactl) True ([], demo_world) =
     (Inr demo_muted, (demo_listed @ demo_mute_trace, demo_world)) \<and>
   map fst demo_mute_trace =
     map (expected_command ''1'') (filter commandable [demo_voice, demo_mic]) \<and>
   results demo_muted =
     Some (map (expected_result ''muted'')
             (zip (filter commandable [demo_voice, demo_mic]) demo_mute_trace)) \<and>
   toggle_mute (traced fake_pactl) ([], demo_world) =
     (Inr demo_muted, (demo_listed @ demo_mute_trace, demo_world))"
  using set_mute_commands [OF no_raise_fake_pactl demo_find_traced, of True]
    no_raise_fake_pactl demo_find_traced demo_set_mute_traced demo_toggle_traced
  by (simp add: demo_mute_trace_def demo_muted_def demo_voice_def demo_mic_def
      commandable_def expected_command_def expected_result_def)

text \<open>
  C2 as stated fails: three streams are selected, two of them without a usable id, and
  \<open>set_mute\<close> issues one mute command and returns one result.
\<close>

theorem set_mute_every_stream_counterexample:
  "find_discord_streams (traced fake_pactl) ([], odd_world) =
     (Inr [odd_orphan, odd_noid, odd_twelve], (odd_listed, odd_world)) \<and>
   set_mute (traced fake_pactl) True ([], odd_world) =
     (Inr \<lparr>success = True, message = ''Successfully muted 1/3 streams'',
           action = Some ''muted'', streams_affected = 1, total_streams = Some 3,
           results = Some [\<lparr>res_id = ''12'', res_type = ''playback'', res_app_name = ''Discord'',
                             res_success = True, res_action = ''muted''\<rparr>]\<rparr>,
      (odd_listed @ [([''pactl'', ''set-sink-input-mute'', ''12'', ''1''], Completed [])],
       odd_world))"
  by code_simp

subsection \<open>The target of a toggle\<close>



subsection \<open>The counts of a summary\<close>

text \<open>
  C7, as amended.  Every summary \<open>set_mute\<close> or \<open>toggle_mute\<close> returns has \<^verbatim>\<open>success\<close>
  true iff \<^verbatim>\<open>streams_affected\<close> is positive.  For a non-empty selection
  \<^verbatim>\<open>streams_affected\<close> is the number of results with \<^verbatim>\<open>success\<close> true and is at most
  \<^verbatim>\<open>total_streams\<close>, the size of the selection.  For an empty selection
  \<^verbatim>\<open>streams_affected\<close> is 0 and the summary has neither \<^verbatim>\<open>total_streams\<close> nor
  \<^verbatim>\<open>results\<close>.
\<close>

theorem summary_invariant:
  assumes "find_discord_streams run w = (Inr sel, w0)"
    and "set_mute run mute w = (Inr s, w') \<or> toggle_mute run w = (Inr s, w')"
  shows "success s = (0 < streams_affected s) \<and>
         (sel = [] \<longrightarrow> streams_affected s = 0 \<and> total_streams s = None \<and> results s = None) \<and>
         (sel \<noteq> [] \<longrightarrow>
            (\<exists>rs. results s = Some rs \<and> total_streams s = Some (length sel) \<and>
                  streams_affected s = length (filter res_success rs) \<and>
                  length rs \<le> length sel \<and> streams_affected s \<le> length sel))"
proof (cases "sel = []")
  case True
  with assms have "s = no_streams"
    by (auto simp: set_mute_def toggle_mute_def)
  with True show ?thesis by (simp add: no_streams_def)
next
  case False
  then obtain f fs where sel: "sel = f # fs" by (cases sel) auto
  from assms obtain t a where "mute_streams run t a sel w0 = (Inr s, w')"
    unfolding sel by (auto simp: set_mute_def toggle_mute_def Let_def)
  from mute_streams_invariant [OF this] obtain rs where
    a: "success s = (0 < streams_affected s)" "total_streams s = Some (length sel)"
       "results s = Some rs" "streams_affected s = length (filter res_success rs)"
       "length rs = length (filter commandable sel)"
    by auto
  have b: "length rs \<le> length sel" using a(5) by simp
  have "length (filter res_success rs) \<le> length rs" by simp
  with b have c: "streams_affected s \<le> length sel" using a(4) by linarith
  show ?thesis using a(1-4) b c False by simp
qed

theorem summary_invariant_witness:
  "find_discord_streams fake_pactl demo_world = (Inr [demo_voice, demo_mic], demo_world) \<and>
   set_mute fake_pactl True demo_world = (Inr demo_muted, demo_world) \<and>
   [demo_voice, demo_mic] \<noteq> [] \<and>
   success demo_muted = (0 < streams_affected demo_muted) \<and>
   total_streams demo_muted = Some (length [demo_voice, demo_mic]) \<and>
   (\<exists>rs. results demo_muted = Some rs \<and>
      streams_affected demo_muted = length (filter res_success rs) \<and>
      length rs \<le> length [demo_voice, demo_mic]) \<and>
   streams_affected demo_muted \<le> length [demo_voice, demo_mic] \<and>
   find_discord_streams fake_pactl (Some [], None, []) = (Inr [], (Some [], None, [])) \<and>
   toggle_mute fake_pactl (Some [], None, []) = (Inr no_streams, (Some [], None, [])) \<and>
   success no_streams = (0 < streams_affected no_streams) \<and>
   streams_affected no_streams = 0 \<and> total_streams no_streams = None \<and>
   results no_streams = None"
  using summary_invariant [OF demo_find_plain, of True demo_muted demo_world]
    summary_invariant [OF quiet_find, of undefined no_streams "(Some [], None, [])"]
    demo_find_plain demo_set_mute quiet_find quiet_toggle
  by (simp add: demo_muted_def no_streams_def)

text \<open>
  C7 as stated fails on an empty selection: the summary has no \<^verbatim>\<open>total_streams\<close> to
  compare with and no \<^verbatim>\<open>results\<close> to count.
\<close>

theorem summary_without_total_counterexample:
  "toggle_mute fake_pactl (None, None, []) =
     (Inr \<lparr>success = False, message = ''No Discord streams found'', action = None,
           streams_affected = 0, total_streams = None, results = None\<rparr>, (None, None, []))"
  by (simp add: toggle_mute_def no_streams_def find_discord_streams_def get_sink_inputs_def
      get_source_outputs_def run_command_def fake_pactl_def)

subsection \<open>Skipped streams\<close>

text \<open>
  C9.  A selected stream with no id or the empty id, or with a missing or unknown type, is
  skipped by \<open>set_mute\<close> and \<open>toggle_mute\<close>: in a run that returns a summary, the commands
  issued and the results are those of the other selected streams, in order, so each list is
  shorter than the selection by the number of skipped streams, while \<^verbatim>\<open>total_streams\<close>
  is the size of the whole selection.  In the witness three streams are selected, two are
  skipped, and one result stands against a total of 3.
\<close>

theorem skipped_streams:
  assumes "find_discord_streams (traced run) ([], w) = (Inr sel, (tr0, w0))"
    and "sel \<noteq> []"
    and "set_mute (traced run) mute ([], w) = (Inr s, (tr, w')) \<or>
         toggle_mute (traced run) ([], w) = (Inr s, (tr, w'))"
  shows "total_streams s = Some (length sel) \<and>
         (\<exists>es. tr = tr0 @ es \<and>
            length es + length (filter skipped sel) = length sel \<and>
            map (\<lambda>e. fst e ! 2) es =
              map (\<lambda>st. case id_key st of Some i \<Rightarrow> i | None \<Rightarrow> [])
                  (filter (\<lambda>st. \<not> skipped st) sel)) \<and>
         (\<exists>rs. results s = Some rs \<and>
            length rs + length (filter skipped sel) = length sel \<and>
            map res_id rs =
              map (\<lambda>st. case id_key st of Some i \<Rightarrow> i | None \<Rightarrow> [])
                  (filter (\<lambda>st. \<not> skipped st) sel))"
proof -
  from assms(3) obtain t a where
    "mute_streams (traced run) t a sel (tr0, w0) = (Inr s, (tr, w'))"
    unfolding set_mute_unfold [OF assms(1,2)] toggle_mute_unfold [OF assms(1,2)] by blast
  from mute_streams_journal [OF this] obtain es where
    es: "tr = tr0 @ es"
      "map fst es = take (length es) (map (expected_command t) (filter commandable sel))"
      "length es = length (filter commandable sel)" "s = traced_summary a sel es"
    by blast
  from es(2,3) have "map fst es = map (expected_command t) (filter commandable sel)" by simp
  from traced_summary_skips [OF this, of a] es(1) show ?thesis unfolding es(4) by blast
qed

theorem skipped_streams_witness:
  "find_discord_streams (traced fake_pactl) ([], odd_world) =
     (Inr [odd_orphan, odd_noid, odd_twelve], (odd_listed, odd_world)) \<and>
   [odd_orphan, odd_noid, odd_twelve] \<noteq> [] \<and>
   filter skipped [odd_orphan, odd_noid, odd_twelve] = [odd_orphan, odd_noid] \<and>
   set_mute (traced fake_pactl) False ([], odd_world) =
     (Inr \<lparr>success = True, message = ''Successfully unmuted 1/3 streams'',
           action = Some ''unmuted'', streams_affected = 1, total_streams = Some 3,
           results = Some [\<lparr>res_id = ''12'', res_type = ''playback'', res_app_name = ''Discord'',
                             res_success = True, res_action = ''unmuted''\<rparr>]\<rparr>,
      (odd_listed @ [([''pactl'', ''set-sink-input-mute'', ''12'', ''0''], Completed [])],
       odd_world)) \<and>
   toggle_mute (traced fake_pactl) ([], odd_world) =
     (Inr \<lparr>success = True, message = ''Successfully muted 1/3 streams'',
           action = Some ''muted'', streams_affected = 1, total_streams = Some 3,
           results = Some [\<lparr>res_id = ''12'', res_type = ''playback'', res_app_name = ''Discord'',
                             res_success = True, res_action = ''muted''\<rparr>]\<rparr>,
      (odd_listed @ [([''pactl'', ''set-sink-input-mute'', ''12'', ''1''], Completed [])],
       odd_world))"
  using skipped_streams [OF odd_find_traced _ disjI1 [OF odd_set_mute_traced]]
    skipped_streams [OF odd_find_traced _ disjI2 [OF odd_toggle_traced]]
    odd_find_traced odd_set_mute_traced odd_toggle_traced
  by (simp add: skipped_def odd_orphan_def odd_noid_def odd_twelve_def)

section \<open>The number of records in a listing\<close>

















end
